theory Spec2Isabelle
  imports Complex_Main "HOL-Library.Char_ord" "HOL-Library.List_Lexorder"
    "HOL-Library.Product_Lexorder"
begin

section \<open>Values of a numeric column\<close>

text \<open>
  A cell of a float64 column. Finite values are kept as exact rationals (rounding is not
  part of the model); the three special values of the format are constructors of their
  own, because the pipeline produces them: \<open>NaN\<close> where a rolling window is not full,
  the infinities where a count is divided by a population of zero.
\<close>

datatype cell = Num rat | PosInf | NegInf | NaN

text \<open>\<open>Series.div\<close> by an integer column: true division, with the IEEE results at zero.\<close>

fun cell_div :: "cell \<Rightarrow> int \<Rightarrow> cell" where
  "cell_div (Num x) p =
     (if p \<noteq> 0 then Num (x / of_int p)
      else if 0 < x then PosInf else if x < 0 then NegInf else NaN)"
| "cell_div PosInf p = (if 0 \<le> p then PosInf else NegInf)"
| "cell_div NegInf p = (if 0 \<le> p then NegInf else PosInf)"
| "cell_div NaN p = NaN"

text \<open>\<open>Series.mul\<close> by a float constant.\<close>

fun cell_mul :: "cell \<Rightarrow> rat \<Rightarrow> cell" where
  "cell_mul (Num x) k = Num (x * k)"
| "cell_mul PosInf k = (if 0 < k then PosInf else if k < 0 then NegInf else NaN)"
| "cell_mul NegInf k = (if 0 < k then NegInf else if k < 0 then PosInf else NaN)"
| "cell_mul NaN k = NaN"

text \<open>The comparisons \<open>column >= k\<close> and \<open>column < k\<close>: both are false on NaN.\<close>

fun cell_ge :: "cell \<Rightarrow> rat \<Rightarrow> bool" where
  "cell_ge (Num x) k = (k \<le> x)"
| "cell_ge PosInf k = True"
| "cell_ge NegInf k = False"
| "cell_ge NaN k = False"

fun cell_lt :: "cell \<Rightarrow> rat \<Rightarrow> bool" where
  "cell_lt (Num x) k = (x < k)"
| "cell_lt PosInf k = False"
| "cell_lt NegInf k = True"
| "cell_lt NaN k = False"

text \<open>
  The position of a value under \<open>sort_values(ascending=False)\<close>: larger values first,
  NaN after every number (\<open>na_position='last'\<close>). A smaller key sorts earlier.
\<close>

fun desc_key :: "cell \<Rightarrow> nat \<times> rat" where
  "desc_key PosInf = (0, 0)"
| "desc_key (Num x) = (1, - x)"
| "desc_key NegInf = (2, 0)"
| "desc_key NaN = (3, 0)"

section \<open>Python strings and lists\<close>

text \<open>
  A string is the list of its code points. The data files are read as ISO-8859-1, so
  every code point of a region name is below 256, which is what \<open>char\<close> holds.
\<close>

text \<open>The characters \<open>str.strip()\<close> removes: the code points with \<open>str.isspace()\<close>.\<close>

definition is_space :: "char \<Rightarrow> bool" where
  "is_space c = (of_char c \<in> {9, 10, 11, 12, 13, 28, 29, 30, 31, 32, 133, 160 :: nat})"

definition strip :: "string \<Rightarrow> string" where
  "strip s = rev (dropWhile is_space (rev (dropWhile is_space s)))"

text \<open>\<open>s.split(d)\<close> for a one-character separator: always at least one token.\<close>

fun split :: "char \<Rightarrow> string \<Rightarrow> string list" where
  "split d [] = [[]]"
| "split d (c # cs) =
     (if c = d then [] # split d cs
      else (case split d cs of [] \<Rightarrow> [[c]] | t # ts \<Rightarrow> (c # t) # ts))"

text \<open>
  \<open>int(s)\<close> in base 10, \<open>None\<close> standing for the ValueError. The text may be wrapped in
  white space (the ASCII blanks and, converted to a blank beforehand, NEL and NBSP; not
  the separators 28 to 31, which \<open>strip\<close> does remove), may carry one sign, and consists
  of decimal digits with single underscores allowed between two digits. The cap on the
  number of digits that later interpreters put on the conversion is not modelled.
\<close>

definition int_space :: "char \<Rightarrow> bool" where
  "int_space c = (of_char c \<in> {9, 10, 11, 12, 13, 32, 133, 160 :: nat})"

definition is_digit :: "char \<Rightarrow> bool" where
  "is_digit c = (48 \<le> (of_char c :: nat) \<and> (of_char c :: nat) \<le> 57)"

definition digit_value :: "char \<Rightarrow> int" where
  "digit_value c = int (of_char c) - 48"

text \<open>The scan of the digits; the flag tells whether the previous character was a digit.\<close>

fun scan_digits :: "bool \<Rightarrow> int \<Rightarrow> string \<Rightarrow> int option" where
  "scan_digits prev acc [] = (if prev then Some acc else None)"
| "scan_digits prev acc (c # cs) =
     (if is_digit c then scan_digits True (10 * acc + digit_value c) cs
      else if c = CHR ''_'' \<and> prev then scan_digits False acc cs
      else None)"

definition int_of_str :: "string \<Rightarrow> int option" where
  "int_of_str s =
     (let t = rev (dropWhile int_space (rev (dropWhile int_space s)))
      in case t of
           [] \<Rightarrow> None
         | c # cs \<Rightarrow>
             if c = CHR ''-'' then map_option uminus (scan_digits False 0 cs)
             else if c = CHR ''+'' then scan_digits False 0 cs
             else scan_digits False 0 t)"

text \<open>The slice \<open>xs[:n]\<close>: a negative bound counts from the end.\<close>

definition slice_to :: "int \<Rightarrow> 'a list \<Rightarrow> 'a list" where
  "slice_to n xs = (if 0 \<le> n then take (nat n) xs else take (length xs - nat (- n)) xs)"

section \<open>The data-frame operations the scripts use\<close>

text \<open>
  A data frame is the list of its rows, in index order; a column is the list of one
  field. Counts are unbounded integers (the files hold counts far below the 64-bit range).
\<close>

text \<open>\<open>Series.diff()\<close>: the difference to the row before, undefined on the first row.\<close>

fun diff_from :: "int \<Rightarrow> int list \<Rightarrow> int list" where
  "diff_from prev [] = []"
| "diff_from prev (x # xs) = (x - prev) # diff_from x xs"

definition diff :: "int list \<Rightarrow> int option list" where
  "diff xs = (case xs of [] \<Rightarrow> [] | x # rest \<Rightarrow> None # map Some (diff_from x rest))"

text \<open>\<open>Series.fillna(v)\<close>; the \<open>astype(int)\<close> that follows it is the identity on integers.\<close>

definition fillna :: "'a \<Rightarrow> 'a option list \<Rightarrow> 'a list" where
  "fillna v xs = map (\<lambda>x. case x of None \<Rightarrow> v | Some y \<Rightarrow> y) xs"

text \<open>
  \<open>Series.rolling(window=w).sum()\<close>: the sum of the \<open>w\<close> rows ending at each row, undefined
  while fewer than \<open>w\<close> rows are there (\<open>min_periods\<close> defaults to the window).
\<close>

definition rolling_sum :: "nat \<Rightarrow> int list \<Rightarrow> int option list" where
  "rolling_sum w xs =
     map (\<lambda>i. if Suc i < w then None else Some (sum_list (take w (drop (Suc i - w) xs))))
       [0..<length xs]"

text \<open>\<open>Series.divide(d)\<close> of such sums, for a non-zero float \<open>d\<close>.\<close>

definition divide_col :: "rat \<Rightarrow> int option list \<Rightarrow> cell list" where
  "divide_col d xs = map (\<lambda>x. case x of None \<Rightarrow> NaN | Some s \<Rightarrow> Num (of_int s / d)) xs"

text \<open>
  \<open>df.sort_values(col, ascending=False)\<close> on a numeric column. Rows with equal values
  keep their order here; the library's default sort promises no order among them.
\<close>

definition sort_values_desc :: "('a \<Rightarrow> cell) \<Rightarrow> 'a list \<Rightarrow> 'a list" where
  "sort_values_desc col df = sort_key (\<lambda>r. desc_key (col r)) df"

text \<open>\<open>df.drop_duplicates(col)\<close>: of the rows with one value of \<open>col\<close>, the first stays.\<close>

fun drop_duplicates_seen :: "'k list \<Rightarrow> ('a \<Rightarrow> 'k) \<Rightarrow> 'a list \<Rightarrow> 'a list" where
  "drop_duplicates_seen seen col [] = []"
| "drop_duplicates_seen seen col (r # rs) =
     (if col r \<in> set seen then drop_duplicates_seen seen col rs
      else r # drop_duplicates_seen (col r # seen) col rs)"

definition drop_duplicates :: "('a \<Rightarrow> 'k) \<Rightarrow> 'a list \<Rightarrow> 'a list" where
  "drop_duplicates col df = drop_duplicates_seen [] col df"

text \<open>
  A row of \<open>pd.merge(df, pops, on=key)\<close>: the row of the left frame and the population
  of the matching row of the right frame.
\<close>

record 'a joined =
  row :: 'a
  population :: int

text \<open>
  \<open>pd.merge(df, pops, on=key)\<close> with its default \<open>how='inner'\<close>, the right frame given as
  its two columns (key, population): one output row for every pair of a left and a right
  row with equal keys, in the order of the left frame.
\<close>

definition merge :: "('a \<Rightarrow> 'k) \<Rightarrow> 'a list \<Rightarrow> ('k \<times> int) list \<Rightarrow> 'a joined list" where
  "merge on df pops =
     concat (map (\<lambda>r. map (\<lambda>p. \<lparr>row = r, population = snd p\<rparr>)
                        (filter (\<lambda>p. fst p = on r) pops)) df)"

section \<open>The columns both scripts keep\<close>

record metrics =
  Date :: int
  total_cases :: cell
  total_deaths :: cell
  daily_cases :: cell
  daily_deaths :: cell
  fips :: int

text \<open>The four column names \<open>choose_column\<close> and \<open>choose_series\<close> can return.\<close>

datatype metric_col = Daily_cases | Daily_deaths | Total_cases | Total_deaths

fun col_name :: "metric_col \<Rightarrow> string" where
  "col_name Daily_cases = ''daily cases''"
| "col_name Daily_deaths = ''daily deaths''"
| "col_name Total_cases = ''total cases''"
| "col_name Total_deaths = ''total deaths''"

text \<open>\<open>df[col]\<close> read and written on one row.\<close>

fun get_col :: "metric_col \<Rightarrow> 'a metrics_scheme \<Rightarrow> cell" where
  "get_col Daily_cases r = daily_cases r"
| "get_col Daily_deaths r = daily_deaths r"
| "get_col Total_cases r = total_cases r"
| "get_col Total_deaths r = total_deaths r"

fun set_col :: "metric_col \<Rightarrow> cell \<Rightarrow> 'a metrics_scheme \<Rightarrow> 'a metrics_scheme" where
  "set_col Daily_cases v r = r\<lparr>daily_cases := v\<rparr>"
| "set_col Daily_deaths v r = r\<lparr>daily_deaths := v\<rparr>"
| "set_col Total_cases v r = r\<lparr>total_cases := v\<rparr>"
| "set_col Total_deaths v r = r\<lparr>total_deaths := v\<rparr>"

text \<open>
  The body of the normalisation loop for one column:
  \<open>df[[col]] = df[[col]].div(df.population, axis=0)\<close>, then \<open>df[[col]] = df[[col]].mul(100.0)\<close>.
\<close>

definition normalize_col ::
  "metric_col \<Rightarrow> 'a metrics_scheme joined list \<Rightarrow> 'a metrics_scheme joined list" where
  "normalize_col c df =
     (let df1 = map (\<lambda>r. r\<lparr>row := set_col c (cell_div (get_col c (row r)) (population r)) (row r)\<rparr>) df
      in map (\<lambda>r. r\<lparr>row := set_col c (cell_mul (get_col c (row r)) 100) (row r)\<rparr>) df1)"

text \<open>
  \<open>for col in ['total cases', 'total deaths', 'daily cases', 'daily deaths']: ...\<close>,
  run when \<open>--norm\<close> is set.
\<close>

definition normalize :: "'a metrics_scheme joined list \<Rightarrow> 'a metrics_scheme joined list" where
  "normalize df = foldl (\<lambda>d c. normalize_col c d) df [Total_cases, Total_deaths, Daily_cases, Daily_deaths]"

text \<open>
  The filter before the presentation: \<open>df[df['daily cases'] >= 0]\<close> under \<open>--norm\<close>,
  \<open>df[df['daily cases'] >= 2]\<close> otherwise.
\<close>

definition noise_filter :: "bool \<Rightarrow> 'a metrics_scheme joined list \<Rightarrow> 'a metrics_scheme joined list" where
  "noise_filter normed df =
     (if normed then filter (\<lambda>r. cell_ge (daily_cases (row r)) 0) df
      else filter (\<lambda>r. cell_ge (daily_cases (row r)) 2) df)"

text \<open>The options both scripts read; \<open>--multi\<close> is absent unless given.\<close>

record options =
  opt_multi :: "string option"
  opt_norm :: bool

text \<open>
  \<open>choose_column\<close> (states) and \<open>choose_series\<close> (counties): the dictionary lookup
  \<open>{'c': ..., 'd': ..., 'C': ..., 'D': ...}.get(opts['--multi'], 'total cases')\<close>.
\<close>

definition choose_column :: "'a options_scheme \<Rightarrow> metric_col" where
  "choose_column opts =
     (case opt_multi opts of
        None \<Rightarrow> Total_cases
      | Some m \<Rightarrow>
          if m = ''c'' then Daily_cases
          else if m = ''d'' then Daily_deaths
          else if m = ''C'' then Total_cases
          else if m = ''D'' then Total_deaths
          else Total_cases)"

definition choose_series :: "'a options_scheme \<Rightarrow> metric_col" where
  "choose_series opts =
     (case opt_multi opts of
        None \<Rightarrow> Total_cases
      | Some m \<Rightarrow>
          if m = ''c'' then Daily_cases
          else if m = ''d'' then Daily_deaths
          else if m = ''C'' then Total_cases
          else if m = ''D'' then Total_deaths
          else Total_cases)"

section \<open>covid-19-states.py\<close>

text \<open>
  A line of \<open>us-states.csv\<close>. The date text is taken as parsed: a date is its day number,
  so the order of the numbers is the order of the calendar.
\<close>

record us_states =
  s_date :: int
  s_state :: string
  s_fips :: int
  s_cases :: int
  s_deaths :: int

text \<open>A line of \<open>state_pops.csv\<close>.\<close>

record state_pops =
  pops_state :: string
  Estimated_pop_2019 :: int
  Census_pop_2010 :: int

record state_row = metrics +
  State :: string

record state_options = options +
  opt_states :: string

definition get_state_list ::
  "state_options \<Rightarrow> state_row joined list \<Rightarrow> metric_col \<Rightarrow> string list" where
  "get_state_list opts df column =
     (case int_of_str (opt_states opts) of
        None \<Rightarrow> map strip (split CHR '','' (opt_states opts))
      | Some top_number \<Rightarrow>
          if top_number \<noteq> 0 then
            (let df_sorted = drop_duplicates (\<lambda>r. State (row r))
                               (sort_values_desc (\<lambda>r. get_col column (row r)) df)
             in slice_to top_number (map (\<lambda>r. State (row r)) df_sorted))
          else map strip (split CHR '','' (opt_states opts)))"

definition get_populations_states :: "state_pops list \<Rightarrow> (string \<times> int) list" where
  "get_populations_states csv = map (\<lambda>p. (pops_state p, Estimated_pop_2019 p)) csv"

text \<open>\<open>df.sort_values(by=['State','Date'], inplace=True)\<close>.\<close>

definition sorted_states :: "us_states list \<Rightarrow> us_states list" where
  "sorted_states csv = sort_key (\<lambda>r. (s_state r, s_date r)) csv"

text \<open>
  The columns \<open>daily deaths\<close> and \<open>daily cases\<close> as first computed,
  \<open>df.deaths.diff().fillna(0).astype(int)\<close> and the same on \<open>df.cases\<close>.
\<close>

definition delta_deaths_states :: "us_states list \<Rightarrow> int list" where
  "delta_deaths_states csv = fillna 0 (diff (map s_deaths (sorted_states csv)))"

definition delta_cases_states :: "us_states list \<Rightarrow> int list" where
  "delta_cases_states csv = fillna 0 (diff (map s_cases (sorted_states csv)))"

text \<open>The frame after the daily columns have been replaced by \<open>rolling(window=7).sum().divide(7.0)\<close>.\<close>

definition derive_states :: "us_states list \<Rightarrow> state_row list" where
  "derive_states csv =
     map (\<lambda>(r, dc, dd).
            \<lparr>Date = s_date r, total_cases = Num (of_int (s_cases r)),
             total_deaths = Num (of_int (s_deaths r)), daily_cases = dc, daily_deaths = dd,
             fips = s_fips r, State = s_state r\<rparr>)
       (zip (sorted_states csv)
          (zip (divide_col 7 (rolling_sum 7 (delta_cases_states csv)))
               (divide_col 7 (rolling_sum 7 (delta_deaths_states csv)))))"

text \<open>The frame \<open>test\<close> hands to \<open>get_state_list\<close>: merged with the populations, normalised on request.\<close>

definition frame_states :: "state_options \<Rightarrow> us_states list \<Rightarrow> state_pops list \<Rightarrow> state_row joined list" where
  "frame_states opts csv pops_csv =
     (let pops = get_populations_states pops_csv;
          df = merge State (derive_states csv) pops
      in if opt_norm opts then normalize df else df)"

text \<open>\<open>test\<close> up to the presentation: the states chosen and the frame that is shown.\<close>

definition test_states ::
  "state_options \<Rightarrow> us_states list \<Rightarrow> state_pops list \<Rightarrow> string list \<times> state_row joined list" where
  "test_states opts csv pops_csv =
     (let df = frame_states opts csv pops_csv;
          y_col = choose_column opts;
          state_list = get_state_list opts df y_col
      in (state_list, noise_filter (opt_norm opts) df))"

section \<open>covid-19-counties.py\<close>

text \<open>A line of \<open>us-counties.csv\<close>; the code of a county may be missing.\<close>

record us_counties =
  c_date :: int
  c_county :: string
  c_state :: string
  c_fips :: "int option"
  c_cases :: int
  c_deaths :: int

text \<open>The columns read from a line of \<open>co-est2019-alldata.csv\<close>.\<close>

record county_pops =
  STATE :: int
  COUNTY :: int
  STNAME :: string
  CTYNAME :: string
  POPESTIMATE2019 :: int

record county_row = metrics +
  state :: string
  County :: string

record county_options = options +
  opt_counties :: string
  opt_state :: string

definition get_county_list ::
  "county_options \<Rightarrow> county_row joined list \<Rightarrow> metric_col \<Rightarrow> string list" where
  "get_county_list opts df column =
     (case int_of_str (opt_counties opts) of
        None \<Rightarrow> map strip (split CHR '','' (opt_counties opts))
      | Some top_number \<Rightarrow>
          if top_number \<noteq> 0 then
            (let df_sorted = drop_duplicates (\<lambda>r. County (row r))
                               (sort_values_desc (\<lambda>r. get_col column (row r)) df)
             in slice_to top_number (map (\<lambda>r. County (row r)) df_sorted))
          else map strip (split CHR '','' (opt_counties opts)))"

definition get_populations_counties :: "county_pops list \<Rightarrow> (int \<times> int) list" where
  "get_populations_counties csv = map (\<lambda>p. (STATE p * 1000 + COUNTY p, POPESTIMATE2019 p)) csv"

text \<open>\<open>df.sort_values(by=['state','county','Date'], inplace=True)\<close>.\<close>

definition sorted_counties :: "us_counties list \<Rightarrow> us_counties list" where
  "sorted_counties csv = sort_key (\<lambda>r. (c_state r, c_county r, c_date r)) csv"

definition delta_deaths_counties :: "us_counties list \<Rightarrow> int list" where
  "delta_deaths_counties csv = fillna 0 (diff (map c_deaths (sorted_counties csv)))"

definition delta_cases_counties :: "us_counties list \<Rightarrow> int list" where
  "delta_cases_counties csv = fillna 0 (diff (map c_cases (sorted_counties csv)))"

text \<open>
  The frame after the smoothing, all states still in it; \<open>fips\<close> is
  \<open>df.fips.fillna(0).astype(int)\<close>.
\<close>

definition derive_counties :: "us_counties list \<Rightarrow> county_row list" where
  "derive_counties csv =
     map (\<lambda>(r, f, dc, dd).
            \<lparr>Date = c_date r, total_cases = Num (of_int (c_cases r)),
             total_deaths = Num (of_int (c_deaths r)), daily_cases = dc, daily_deaths = dd,
             fips = f, state = c_state r, County = c_county r\<rparr>)
       (zip (sorted_counties csv)
          (zip (fillna 0 (map c_fips (sorted_counties csv)))
             (zip (divide_col 7 (rolling_sum 7 (delta_cases_counties csv)))
                  (divide_col 7 (rolling_sum 7 (delta_deaths_counties csv))))))"

text \<open>
  The frame \<open>test\<close> hands to \<open>get_county_list\<close>: the rows of the requested state, merged
  with the populations on \<open>fips\<close>, normalised on request.
\<close>

definition frame_counties ::
  "county_options \<Rightarrow> us_counties list \<Rightarrow> county_pops list \<Rightarrow> county_row joined list" where
  "frame_counties opts csv pops_csv =
     (let df = filter (\<lambda>r. state r = opt_state opts) (derive_counties csv);
          pops = get_populations_counties pops_csv;
          df = merge fips df pops
      in if opt_norm opts then normalize df else df)"

definition test_counties ::
  "county_options \<Rightarrow> us_counties list \<Rightarrow> county_pops list \<Rightarrow> string list \<times> county_row joined list" where
  "test_counties opts csv pops_csv =
     (let df = frame_counties opts csv pops_csv;
          y_col = choose_series opts;
          counties = get_county_list opts df y_col
      in (counties, noise_filter (opt_norm opts) df))"

section \<open>Notions the properties are stated with\<close>

text \<open>
  The values a column \<open>col\<close> of the frame \<open>df\<close> holds on the rows that satisfy \<open>P\<close>, in the
  order of the frame.
\<close>

definition region_series :: "('a \<Rightarrow> bool) \<Rightarrow> 'a list \<Rightarrow> 'b list \<Rightarrow> 'b list" where
  "region_series P df col = map snd (filter (\<lambda>(r, v). P r) (zip df col))"

text \<open>The rows of one state in the sorted frame, and a column of that frame on those rows.\<close>

definition state_rows :: "string \<Rightarrow> us_states list \<Rightarrow> us_states list" where
  "state_rows g csv = filter (\<lambda>r. s_state r = g) (sorted_states csv)"

definition state_series :: "string \<Rightarrow> us_states list \<Rightarrow> 'b list \<Rightarrow> 'b list" where
  "state_series g csv col = region_series (\<lambda>r. s_state r = g) (sorted_states csv) col"

text \<open>The same for one county of one state.\<close>

definition county_rows :: "string \<Rightarrow> string \<Rightarrow> us_counties list \<Rightarrow> us_counties list" where
  "county_rows st g csv = filter (\<lambda>r. (c_state r, c_county r) = (st, g)) (sorted_counties csv)"

definition county_series :: "string \<Rightarrow> string \<Rightarrow> us_counties list \<Rightarrow> 'b list \<Rightarrow> 'b list" where
  "county_series st g csv col =
     region_series (\<lambda>r. (c_state r, c_county r) = (st, g)) (sorted_counties csv) col"

text \<open>What the normalisation makes of one row.\<close>

definition normalize_row :: "'a metrics_scheme joined \<Rightarrow> 'a metrics_scheme joined" where
  "normalize_row r =
     r\<lparr>row := (row r)\<lparr>
        total_cases := cell_mul (cell_div (total_cases (row r)) (population r)) 100,
        total_deaths := cell_mul (cell_div (total_deaths (row r)) (population r)) 100,
        daily_cases := cell_mul (cell_div (daily_cases (row r)) (population r)) 100,
        daily_deaths := cell_mul (cell_div (daily_deaths (row r)) (population r)) 100\<rparr>\<rparr>"

text \<open>
  \<open>at_least a b\<close>: the descending sort puts \<open>a\<close> no later than \<open>b\<close>, that is \<open>a \<ge> b\<close> on
  numbers, with NaN below everything.
\<close>

definition at_least :: "cell \<Rightarrow> cell \<Rightarrow> bool" where
  "at_least a b = (desc_key a \<le> desc_key b)"

text \<open>The highest value of a column over the rows of a region, and its value on the last of them.\<close>

definition peak :: "('a \<Rightarrow> cell) \<Rightarrow> ('a \<Rightarrow> 'k) \<Rightarrow> 'a list \<Rightarrow> 'k \<Rightarrow> cell" where
  "peak col reg df g = col (arg_min_list (\<lambda>r. desc_key (col r)) (filter (\<lambda>r. reg r = g) df))"

definition latest :: "('a \<Rightarrow> cell) \<Rightarrow> ('a \<Rightarrow> 'k) \<Rightarrow> 'a list \<Rightarrow> 'k \<Rightarrow> cell" where
  "latest col reg df g = col (last (filter (\<lambda>r. reg r = g) df))"

text \<open>
  \<open>ranked_top v regions L\<close>: the list \<open>L\<close> names regions, each once, in descending order of
  their value \<open>v\<close>, and no region left out has a higher value than one in the list.
\<close>

definition ranked_top :: "('k \<Rightarrow> cell) \<Rightarrow> 'k set \<Rightarrow> 'k list \<Rightarrow> bool" where
  "ranked_top v regions L \<longleftrightarrow>
     distinct L \<and> set L \<subseteq> regions \<and>
     sorted_wrt (\<lambda>g h. at_least (v g) (v h)) L \<and>
     (\<forall>g \<in> regions - set L. \<forall>h \<in> set L. at_least (v h) (v g))"

definition state_names :: "state_row joined list \<Rightarrow> string set" where
  "state_names df = (\<lambda>r. State (row r)) ` set df"

definition state_peak :: "metric_col \<Rightarrow> state_row joined list \<Rightarrow> string \<Rightarrow> cell" where
  "state_peak column df = peak (\<lambda>r. get_col column (row r)) (\<lambda>r. State (row r)) df"

definition state_latest :: "metric_col \<Rightarrow> state_row joined list \<Rightarrow> string \<Rightarrow> cell" where
  "state_latest column df = latest (\<lambda>r. get_col column (row r)) (\<lambda>r. State (row r)) df"

definition county_names :: "county_row joined list \<Rightarrow> string set" where
  "county_names df = (\<lambda>r. County (row r)) ` set df"

definition county_peak :: "metric_col \<Rightarrow> county_row joined list \<Rightarrow> string \<Rightarrow> cell" where
  "county_peak column df = peak (\<lambda>r. get_col column (row r)) (\<lambda>r. County (row r)) df"

text \<open>The reading of the noise filter that drops the rows below the threshold and no others.\<close>

definition drop_below :: "rat \<Rightarrow> 'a metrics_scheme joined list \<Rightarrow> 'a metrics_scheme joined list" where
  "drop_below k df = filter (\<lambda>r. \<not> cell_lt (daily_cases (row r)) k) df"

section \<open>Sample inputs\<close>

definition state_line :: "string \<Rightarrow> int \<times> int \<Rightarrow> us_states" where
  "state_line st dc = \<lparr>s_date = fst dc, s_state = st, s_fips = 1, s_cases = snd dc, s_deaths = 0\<rparr>"

definition county_line :: "string \<Rightarrow> int \<Rightarrow> int \<times> int \<Rightarrow> us_counties" where
  "county_line g f dc =
     \<lparr>c_date = fst dc, c_county = g, c_state = ''S'', c_fips = Some f, c_cases = snd dc, c_deaths = 0\<rparr>"

text \<open>One state over five days, the file not in date order.\<close>

definition five_days :: "us_states list" where
  "five_days = map (state_line ''A'') [(3, 3), (1, 0), (2, 0), (5, 7), (4, 3)]"

text \<open>
  Two states over nine days: \<open>A\<close> records all its 70 cases on the second day, \<open>B\<close> starts
  at 70 and adds 7 cases a day.
\<close>

definition two_waves :: "us_states list" where
  "two_waves =
     map (state_line ''A'')
       [(1, 0), (2, 70), (3, 70), (4, 70), (5, 70), (6, 70), (7, 70), (8, 70), (9, 70)] @
     map (state_line ''B'')
       [(1, 70), (2, 77), (3, 84), (4, 91), (5, 98), (6, 105), (7, 112), (8, 119), (9, 126)]"

definition two_waves_pops :: "state_pops list" where
  "two_waves_pops =
     [\<lparr>pops_state = ''A'', Estimated_pop_2019 = 1000, Census_pop_2010 = 900\<rparr>,
      \<lparr>pops_state = ''B'', Estimated_pop_2019 = 1000, Census_pop_2010 = 900\<rparr>]"

text \<open>Region \<open>A\<close> with 100 cases among 1000 people, region \<open>B\<close> with 150 among 10000.\<close>

definition two_regions :: "us_states list" where
  "two_regions = [state_line ''A'' (1, 100), state_line ''B'' (1, 150)]"

definition two_regions_pops :: "state_pops list" where
  "two_regions_pops =
     [\<lparr>pops_state = ''A'', Estimated_pop_2019 = 1000, Census_pop_2010 = 900\<rparr>,
      \<lparr>pops_state = ''B'', Estimated_pop_2019 = 10000, Census_pop_2010 = 9000\<rparr>]"

definition two_counties :: "us_counties list" where
  "two_counties = [county_line ''A'' 1001 (1, 100), county_line ''B'' 1002 (1, 150)]"

definition two_counties_pops :: "county_pops list" where
  "two_counties_pops =
     [\<lparr>STATE = 1, COUNTY = 1, STNAME = ''S'', CTYNAME = ''A County'', POPESTIMATE2019 = 1000\<rparr>,
      \<lparr>STATE = 1, COUNTY = 2, STNAME = ''S'', CTYNAME = ''B County'', POPESTIMATE2019 = 10000\<rparr>]"

definition states_opts :: "string option \<Rightarrow> bool \<Rightarrow> string \<Rightarrow> state_options" where
  "states_opts m n s = \<lparr>opt_multi = m, opt_norm = n, opt_states = s\<rparr>"

definition counties_opts :: "string option \<Rightarrow> bool \<Rightarrow> string \<Rightarrow> county_options" where
  "counties_opts m n s = \<lparr>opt_multi = m, opt_norm = n, opt_counties = s, opt_state = ''S''\<rparr>"

text \<open>One county over eight days.\<close>

definition one_county :: "us_counties list" where
  "one_county =
     map (county_line ''A'' 1001)
       [(1, 0), (2, 7), (3, 14), (4, 21), (5, 28), (6, 35), (7, 42), (8, 56)]"

text \<open>
  Two regions over seven days: \<open>A\<close> has no case at all, \<open>B\<close> stands at 7000 cases from its
  first day on and records no new one.
\<close>

definition quiet_then_flat :: "us_states list" where
  "quiet_then_flat =
     map (state_line ''A'') [(1, 0), (2, 0), (3, 0), (4, 0), (5, 0), (6, 0), (7, 0)] @
     map (state_line ''B'')
       [(1, 7000), (2, 7000), (3, 7000), (4, 7000), (5, 7000), (6, 7000), (7, 7000)]"

definition quiet_then_flat_counties :: "us_counties list" where
  "quiet_then_flat_counties =
     map (county_line ''A'' 1001) [(1, 0), (2, 0), (3, 0), (4, 0), (5, 0), (6, 0), (7, 0)] @
     map (county_line ''B'' 1002)
       [(1, 7000), (2, 7000), (3, 7000), (4, 7000), (5, 7000), (6, 7000), (7, 7000)]"

section \<open>Facts about the data-frame operations\<close>

subsection \<open>Differences\<close>

lemma fillna_diff_Nil: "fillna 0 (diff []) = []"
  by (simp add: fillna_def diff_def)

lemma fillna_diff_Cons: "fillna 0 (diff (x # xs)) = 0 # diff_from x xs"
  by (simp add: fillna_def diff_def comp_def)

lemma length_diff_from: "length (diff_from p xs) = length xs"
  by (induction xs arbitrary: p) auto

lemma length_fillna_diff: "length (fillna 0 (diff xs)) = length xs"
  by (cases xs) (simp_all add: fillna_diff_Cons fillna_diff_Nil length_diff_from)

subsection \<open>A column on the rows of a region\<close>

lemma region_series_Nil: "region_series P [] col = []"
  by (simp add: region_series_def)

lemma region_series_Cons:
  "region_series P (r # df) (v # col) =
     (if P r then v # region_series P df col else region_series P df col)"
  by (simp add: region_series_def)

lemma region_series_none: "\<forall>r \<in> set df. \<not> P r \<Longrightarrow> region_series P df col = []"
  by (auto simp: region_series_def filter_empty_conv dest: set_zip_leftD)

lemma region_series_all:
  assumes "\<forall>r \<in> set df. P r" and "length col = length df"
  shows "region_series P df col = col"
proof -
  have "filter (\<lambda>(r, v). P r) (zip df col) = zip df col"
    using assms(1) by (auto simp: filter_id_conv dest: set_zip_leftD)
  then show ?thesis using assms(2) by (simp add: region_series_def)
qed

lemma region_series_append:
  "length c1 = length d1 \<Longrightarrow>
   region_series P (d1 @ d2) (c1 @ c2) = region_series P d1 c1 @ region_series P d2 c2"
  by (simp add: region_series_def)

text \<open>In a frame sorted by region, the rows of a region follow each other.\<close>

lemma sorted_split3:
  fixes reg :: "'a \<Rightarrow> 'k::linorder"
  assumes "sorted (map reg xs)"
  shows "xs = filter (\<lambda>r. reg r < g) xs @ filter (\<lambda>r. reg r = g) xs @ filter (\<lambda>r. g < reg r) xs"
  using assms
proof (induction xs)
  case Nil
  then show ?case by simp
next
  case (Cons x xs)
  then have ge: "\<forall>r \<in> set xs. reg x \<le> reg r"
    and IH: "xs = filter (\<lambda>r. reg r < g) xs @ filter (\<lambda>r. reg r = g) xs @ filter (\<lambda>r. g < reg r) xs"
    by auto
  consider "reg x < g" | "reg x = g" | "g < reg x" by (meson less_linear)
  then show ?case
  proof cases
    case 1
    then show ?thesis using IH by auto
  next
    case 2
    with ge have "filter (\<lambda>r. reg r < g) xs = []" by (auto simp: filter_empty_conv)
    then show ?thesis using 2 IH by auto
  next
    case 3
    with ge have "filter (\<lambda>r. reg r < g) xs = []" "filter (\<lambda>r. reg r = g) xs = []"
      by (auto simp: filter_empty_conv)
    then show ?thesis using 3 IH by auto
  qed
qed

lemma region_series_segment:
  assumes "\<forall>r \<in> set as. \<not> P r" "\<forall>r \<in> set seg. P r" "\<forall>r \<in> set bs. \<not> P r"
    and "length col = length as + length seg + length bs"
  shows "region_series P (as @ seg @ bs) col = take (length seg) (drop (length as) col)"
proof -
  define c1 where "c1 = take (length as) col"
  define c2 where "c2 = take (length seg) (drop (length as) col)"
  define c3 where "c3 = drop (length seg) (drop (length as) col)"
  have col: "col = c1 @ c2 @ c3" by (simp add: c1_def c2_def c3_def del: drop_drop)
  have l1: "length c1 = length as" and l2: "length c2 = length seg"
    using assms(4) by (simp_all add: c1_def c2_def)
  have "region_series P (as @ seg @ bs) (c1 @ c2 @ c3)
      = region_series P as c1 @ region_series P seg c2 @ region_series P bs c3"
    using l1 l2 by (simp add: region_series_append)
  also have "\<dots> = c2"
    using assms(1,2,3) l2 by (simp add: region_series_none region_series_all)
  finally have "region_series P (as @ seg @ bs) (c1 @ c2 @ c3) = c2" .
  then have "region_series P (as @ seg @ bs) col = c2" by (simp only: col[symmetric])
  then show ?thesis by (simp only: c2_def)
qed

lemma region_series_sorted:
  fixes reg :: "'a \<Rightarrow> 'k::linorder"
  assumes "sorted (map reg xs)" and "length col = length xs"
  shows "region_series (\<lambda>r. reg r = g) xs col
       = take (length (filter (\<lambda>r. reg r = g) xs)) (drop (length (filter (\<lambda>r. reg r < g) xs)) col)"
proof -
  let ?as = "filter (\<lambda>r. reg r < g) xs" and ?seg = "filter (\<lambda>r. reg r = g) xs"
    and ?bs = "filter (\<lambda>r. g < reg r) xs"
  have xs: "xs = ?as @ ?seg @ ?bs" by (rule sorted_split3[OF assms(1)])
  have len: "length col = length ?as + length ?seg + length ?bs"
    using assms(2) arg_cong[OF xs, of length] by simp
  have "region_series (\<lambda>r. reg r = g) (?as @ ?seg @ ?bs) col
      = take (length ?seg) (drop (length ?as) col)"
    by (rule region_series_segment[OF _ _ _ len]) auto
  then show ?thesis using xs by simp
qed

subsection \<open>Differences on the rows of a region\<close>

lemma region_diff_from_head:
  fixes reg :: "'a \<Rightarrow> 'k::linorder"
  assumes "sorted (map reg xs)" and "\<forall>r \<in> set xs. g \<le> reg r"
  shows "region_series (\<lambda>r. reg r = g) xs (diff_from p (map c xs))
       = diff_from p (map c (filter (\<lambda>r. reg r = g) xs))"
  using assms
proof (induction xs arbitrary: p)
  case Nil
  then show ?case by (simp add: region_series_Nil)
next
  case (Cons x xs)
  show ?case
  proof (cases "reg x = g")
    case True
    then show ?thesis using Cons by (simp add: region_series_Cons)
  next
    case False
    with Cons.prems have "g < reg x" by auto
    with Cons.prems have none: "\<forall>r \<in> set xs. reg r \<noteq> g" by auto
    then have "filter (\<lambda>r. reg r = g) xs = []" by (simp add: filter_empty_conv)
    then show ?thesis using False none by (simp add: region_series_Cons region_series_none)
  qed
qed

lemma region_diff_from_tail:
  fixes reg :: "'a \<Rightarrow> 'k::linorder"
  assumes "sorted (map reg xs)"
  shows "tl (region_series (\<lambda>r. reg r = g) xs (diff_from p (map c xs)))
       = tl (diff_from q (map c (filter (\<lambda>r. reg r = g) xs)))"
  using assms
proof (induction xs arbitrary: p)
  case Nil
  then show ?case by (simp add: region_series_Nil)
next
  case (Cons x xs)
  show ?case
  proof (cases "reg x = g")
    case True
    with Cons.prems have "\<forall>r \<in> set xs. g \<le> reg r" by auto
    then show ?thesis using True Cons.prems
      by (simp add: region_series_Cons region_diff_from_head)
  next
    case False
    then show ?thesis using Cons by (simp add: region_series_Cons)
  qed
qed

text \<open>After its first row, a region carries its own first differences.\<close>

lemma region_delta_tail:
  fixes reg :: "'a \<Rightarrow> 'k::linorder"
  assumes "sorted (map reg xs)"
  shows "tl (region_series (\<lambda>r. reg r = g) xs (fillna 0 (diff (map c xs))))
       = tl (fillna 0 (diff (map c (filter (\<lambda>r. reg r = g) xs))))"
proof (cases xs)
  case Nil
  then show ?thesis by (simp add: region_series_Nil fillna_diff_Nil)
next
  case (Cons x ys)
  show ?thesis
  proof (cases "reg x = g")
    case True
    with assms Cons have "\<forall>r \<in> set ys. g \<le> reg r" by auto
    then show ?thesis using True assms Cons
      by (simp add: fillna_diff_Cons region_series_Cons region_diff_from_head)
  next
    case False
    have "sorted (map reg ys)" using assms Cons by simp
    from region_diff_from_tail[OF this, of g "c x" c]
    show ?thesis using False Cons
      apply (simp add: fillna_diff_Cons region_series_Cons)
      apply (cases "filter (\<lambda>r. reg r = g) ys")
       apply (simp_all add: fillna_diff_Cons fillna_diff_Nil)
      done
  qed
qed

text \<open>The region that opens the frame carries them from its first row on.\<close>

lemma region_delta_head:
  fixes reg :: "'a \<Rightarrow> 'k::linorder"
  assumes "sorted (map reg xs)" and "\<forall>r \<in> set xs. g \<le> reg r"
  shows "region_series (\<lambda>r. reg r = g) xs (fillna 0 (diff (map c xs)))
       = fillna 0 (diff (map c (filter (\<lambda>r. reg r = g) xs)))"
proof (cases xs)
  case Nil
  then show ?thesis by (simp add: region_series_Nil fillna_diff_Nil)
next
  case (Cons x ys)
  show ?thesis
  proof (cases "reg x = g")
    case True
    then show ?thesis using assms Cons
      by (simp add: fillna_diff_Cons region_series_Cons region_diff_from_head)
  next
    case False
    with assms Cons have "g < reg x" by auto
    with assms Cons have none: "\<forall>r \<in> set xs. reg r \<noteq> g" by auto
    then have "filter (\<lambda>r. reg r = g) xs = []" by (simp add: filter_empty_conv)
    then show ?thesis using none by (simp add: region_series_none fillna_diff_Nil)
  qed
qed

subsection \<open>The rolling mean\<close>

lemma length_rolling_sum: "length (rolling_sum w xs) = length xs"
  by (simp add: rolling_sum_def)

lemma length_divide_col: "length (divide_col d xs) = length xs"
  by (simp add: divide_col_def)

lemma smoothed_nth:
  "i < length xs \<Longrightarrow>
   divide_col 7 (rolling_sum 7 xs) ! i
     = (if i < 6 then NaN else Num (of_int (sum_list (take 7 (drop (i - 6) xs))) / 7))"
  by (auto simp: divide_col_def rolling_sum_def Suc_diff_le numeral_eq_Suc)

lemma take_drop_segment:
  "j + m \<le> n \<Longrightarrow> take m (drop j (take n (drop a ys))) = take m (drop (a + j) ys)"
  by (simp add: drop_take min_def add.commute)

lemma smoothed_segment:
  assumes "6 \<le> k" "k < n" "a + n \<le> length xs"
  shows "take n (drop a (divide_col 7 (rolling_sum 7 xs))) ! k
       = Num (of_int (sum_list (take 7 (drop (k - 6) (take n (drop a xs))))) / 7)"
proof -
  have "take n (drop a (divide_col 7 (rolling_sum 7 xs))) ! k
      = divide_col 7 (rolling_sum 7 xs) ! (a + k)"
    using assms by (simp add: length_divide_col length_rolling_sum)
  also have "\<dots> = Num (of_int (sum_list (take 7 (drop (a + k - 6) xs))) / 7)"
    using assms by (simp add: smoothed_nth)
  also have "take 7 (drop (a + k - 6) xs) = take 7 (drop (k - 6) (take n (drop a xs)))"
    using assms take_drop_segment[of "k - 6" 7 n a xs] by simp
  finally show ?thesis .
qed

text \<open>Within a region, from its seventh row on, the smoothed column is the mean of the region's last seven values.\<close>

lemma region_smoothed:
  fixes reg :: "'a \<Rightarrow> 'k::linorder"
  assumes srt: "sorted (map reg xs)" and len: "length ds = length xs"
    and k: "6 \<le> k" "k < length (filter (\<lambda>r. reg r = g) xs)"
  shows "region_series (\<lambda>r. reg r = g) xs (divide_col 7 (rolling_sum 7 ds)) ! k
       = Num (of_int (sum_list (take 7 (drop (k - 6) (region_series (\<lambda>r. reg r = g) xs ds)))) / 7)"
proof -
  let ?n = "length (filter (\<lambda>r. reg r = g) xs)" and ?a = "length (filter (\<lambda>r. reg r < g) xs)"
  have "length xs = ?a + ?n + length (filter (\<lambda>r. g < reg r) xs)"
    using arg_cong[OF sorted_split3[OF srt, of g], of length] by simp
  then have bound: "?a + ?n \<le> length ds" using len by simp
  have "region_series (\<lambda>r. reg r = g) xs (divide_col 7 (rolling_sum 7 ds))
      = take ?n (drop ?a (divide_col 7 (rolling_sum 7 ds)))"
    using len by (intro region_series_sorted[OF srt]) (simp add: length_divide_col length_rolling_sum)
  moreover have "region_series (\<lambda>r. reg r = g) xs ds = take ?n (drop ?a ds)"
    by (rule region_series_sorted[OF srt len])
  ultimately show ?thesis using smoothed_segment[OF k bound] by simp
qed

subsection \<open>The sorted frames and their columns\<close>

lemma sorted_states_by_state: "sorted (map s_state (sorted_states csv))"
proof -
  have "sorted (map (\<lambda>r. (s_state r, s_date r)) (sorted_states csv))"
    by (simp add: sorted_states_def)
  then show ?thesis
    by (simp add: sorted_map) (erule sorted_wrt_mono_rel[rotated], auto simp: less_eq_prod_def)
qed

lemma sorted_counties_by_county:
  "sorted (map (\<lambda>r. (c_state r, c_county r)) (sorted_counties csv))"
proof -
  have "sorted (map (\<lambda>r. (c_state r, c_county r, c_date r)) (sorted_counties csv))"
    by (simp add: sorted_counties_def)
  then show ?thesis
    by (simp add: sorted_map) (erule sorted_wrt_mono_rel[rotated], auto simp: less_eq_prod_def)
qed

lemma length_sorted_states: "length (sorted_states csv) = length csv"
  by (simp add: sorted_states_def)

lemma length_sorted_counties: "length (sorted_counties csv) = length csv"
  by (simp add: sorted_counties_def)

lemma set_sorted_states: "set (sorted_states csv) = set csv"
  by (simp add: sorted_states_def)

lemma set_sorted_counties: "set (sorted_counties csv) = set csv"
  by (simp add: sorted_counties_def)

lemma length_delta_states:
  "length (delta_cases_states csv) = length (sorted_states csv)"
  "length (delta_deaths_states csv) = length (sorted_states csv)"
  by (simp_all add: delta_cases_states_def delta_deaths_states_def length_fillna_diff)

lemma length_delta_counties:
  "length (delta_cases_counties csv) = length (sorted_counties csv)"
  "length (delta_deaths_counties csv) = length (sorted_counties csv)"
  by (simp_all add: delta_cases_counties_def delta_deaths_counties_def length_fillna_diff)

lemma map_zip3:
  assumes "length bs = length as" "length cs = length as"
  shows "map (\<lambda>(a, b, c). f a b c) (zip as (zip bs cs)) = map (\<lambda>i. f (as ! i) (bs ! i) (cs ! i)) [0..<length as]"
  using assms by (intro nth_equalityI) auto

lemma derive_states_daily:
  "map daily_cases (derive_states csv) = divide_col 7 (rolling_sum 7 (delta_cases_states csv))"
  "map daily_deaths (derive_states csv) = divide_col 7 (rolling_sum 7 (delta_deaths_states csv))"
  unfolding derive_states_def
  by (intro nth_equalityI; simp add: length_divide_col length_rolling_sum length_delta_states)+

lemma derive_counties_daily:
  "map daily_cases (derive_counties csv) = divide_col 7 (rolling_sum 7 (delta_cases_counties csv))"
  "map daily_deaths (derive_counties csv) = divide_col 7 (rolling_sum 7 (delta_deaths_counties csv))"
  unfolding derive_counties_def
  by (intro nth_equalityI; simp add: length_divide_col length_rolling_sum length_delta_counties fillna_def)+

lemma length_derive_states: "length (derive_states csv) = length (sorted_states csv)"
  by (simp add: derive_states_def length_divide_col length_rolling_sum length_delta_states)

lemma length_derive_counties: "length (derive_counties csv) = length (sorted_counties csv)"
  by (simp add: derive_counties_def length_divide_col length_rolling_sum length_delta_counties fillna_def)

text \<open>A row of the smoothed frame: undefined on the first six rows, a mean of the last seven deltas after.\<close>

lemma derive_states_row:
  assumes "i < length csv"
  shows "daily_cases (derive_states csv ! i)
       = (if i < 6 then NaN
          else Num (of_int (sum_list (take 7 (drop (i - 6) (delta_cases_states csv)))) / 7))"
    and "daily_deaths (derive_states csv ! i)
       = (if i < 6 then NaN
          else Num (of_int (sum_list (take 7 (drop (i - 6) (delta_deaths_states csv)))) / 7))"
proof -
  have "daily_cases (derive_states csv ! i) = map daily_cases (derive_states csv) ! i"
    and "daily_deaths (derive_states csv ! i) = map daily_deaths (derive_states csv) ! i"
    using assms by (simp_all add: length_derive_states length_sorted_states)
  then show "daily_cases (derive_states csv ! i)
       = (if i < 6 then NaN
          else Num (of_int (sum_list (take 7 (drop (i - 6) (delta_cases_states csv)))) / 7))"
    and "daily_deaths (derive_states csv ! i)
       = (if i < 6 then NaN
          else Num (of_int (sum_list (take 7 (drop (i - 6) (delta_deaths_states csv)))) / 7))"
    using assms
    by (simp_all only: derive_states_daily smoothed_nth length_delta_states length_sorted_states)
qed

lemma derive_counties_row:
  assumes "i < length csv"
  shows "daily_cases (derive_counties csv ! i)
       = (if i < 6 then NaN
          else Num (of_int (sum_list (take 7 (drop (i - 6) (delta_cases_counties csv)))) / 7))"
    and "daily_deaths (derive_counties csv ! i)
       = (if i < 6 then NaN
          else Num (of_int (sum_list (take 7 (drop (i - 6) (delta_deaths_counties csv)))) / 7))"
proof -
  have "daily_cases (derive_counties csv ! i) = map daily_cases (derive_counties csv) ! i"
    and "daily_deaths (derive_counties csv ! i) = map daily_deaths (derive_counties csv) ! i"
    using assms by (simp_all add: length_derive_counties length_sorted_counties)
  then show "daily_cases (derive_counties csv ! i)
       = (if i < 6 then NaN
          else Num (of_int (sum_list (take 7 (drop (i - 6) (delta_cases_counties csv)))) / 7))"
    and "daily_deaths (derive_counties csv ! i)
       = (if i < 6 then NaN
          else Num (of_int (sum_list (take 7 (drop (i - 6) (delta_deaths_counties csv)))) / 7))"
    using assms
    by (simp_all only: derive_counties_daily smoothed_nth length_delta_counties
        length_sorted_counties)
qed

subsection \<open>Sorting and dropping duplicates\<close>

lemma dds_subset: "set (drop_duplicates_seen seen reg xs) \<subseteq> set xs"
  by (induction xs arbitrary: seen) auto

lemma dds_unseen: "r \<in> set (drop_duplicates_seen seen reg xs) \<Longrightarrow> reg r \<notin> set seen"
proof (induction xs arbitrary: seen)
  case Nil
  then show ?case by simp
next
  case (Cons x xs)
  show ?case
  proof (cases "reg x \<in> set seen")
    case True
    then show ?thesis using Cons by simp
  next
    case False
    with Cons.prems have "r = x \<or> r \<in> set (drop_duplicates_seen (reg x # seen) reg xs)"
      by simp
    then show ?thesis using False Cons.IH[of "reg x # seen"] by auto
  qed
qed

lemma dds_distinct: "distinct (map reg (drop_duplicates_seen seen reg xs))"
  by (induction xs arbitrary: seen) (auto dest: dds_unseen)

lemma dds_regions: "reg ` set (drop_duplicates_seen seen reg xs) = reg ` set xs - set seen"
  by (induction xs arbitrary: seen) auto

lemma dds_sorted:
  fixes k :: "'a \<Rightarrow> 'o::linorder"
  shows "sorted (map k xs) \<Longrightarrow> sorted (map k (drop_duplicates_seen seen reg xs))"
proof (induction xs arbitrary: seen)
  case Nil
  then show ?case by simp
next
  case (Cons x xs)
  then show ?case using dds_subset[of _ reg xs] by (auto simp: subset_iff)
qed

text \<open>The row kept for a region is the first of the region in the sorted frame.\<close>

lemma dds_first:
  fixes k :: "'a \<Rightarrow> 'o::linorder"
  assumes "sorted (map k xs)" "r \<in> set (drop_duplicates_seen seen reg xs)"
    "r' \<in> set xs" "reg r' = reg r"
  shows "k r \<le> k r'"
  using assms
proof (induction xs arbitrary: seen)
  case Nil
  then show ?case by simp
next
  case (Cons x xs)
  show ?case
  proof (cases "reg x \<in> set seen")
    case True
    with Cons.prems have r: "r \<in> set (drop_duplicates_seen seen reg xs)" by simp
    then have "reg r \<notin> set seen" by (rule dds_unseen)
    with True Cons.prems have "r' \<in> set xs" by auto
    with Cons r show ?thesis by auto
  next
    case False
    show ?thesis
    proof (cases "r = x")
      case True
      then show ?thesis using Cons.prems by auto
    next
      case neq: False
      with False Cons.prems have r: "r \<in> set (drop_duplicates_seen (reg x # seen) reg xs)"
        by simp
      then have "reg r \<notin> set (reg x # seen)" by (rule dds_unseen)
      with Cons.prems have "r' \<in> set xs" by auto
      with Cons r show ?thesis by auto
    qed
  qed
qed

lemma peak_of_first:
  assumes r: "r \<in> set df"
    and least: "\<forall>r' \<in> set df. reg r' = reg r \<longrightarrow> desc_key (col r) \<le> desc_key (col r')"
  shows "desc_key (peak col reg df (reg r)) = desc_key (col r)"
proof -
  let ?rows = "filter (\<lambda>r'. reg r' = reg r) df"
  have ne: "?rows \<noteq> []" using r by (auto simp: filter_empty_conv)
  have "desc_key (peak col reg df (reg r)) = Min ((\<lambda>r. desc_key (col r)) ` set ?rows)"
    unfolding peak_def using f_arg_min_list_f[OF ne, of "\<lambda>r. desc_key (col r)"] by simp
  also have "\<dots> = desc_key (col r)"
    using r least by (intro Min_eqI) auto
  finally show ?thesis .
qed

text \<open>The first \<open>n\<close> regions of the sorted, deduplicated frame are a top \<open>n\<close> by peak value.\<close>

lemma top_ranked:
  fixes df :: "'a list" and reg :: "'a \<Rightarrow> 'k" and col :: "'a \<Rightarrow> cell"
  defines "D \<equiv> drop_duplicates reg (sort_values_desc col df)"
  shows "ranked_top (peak col reg df) (reg ` set df) (take n (map reg D))"
    and "length (take n (map reg D)) = min n (card (reg ` set df))"
proof -
  let ?k = "\<lambda>r. desc_key (col r)"
  let ?S = "sort_values_desc col df"
  have setS: "set ?S = set df" by (simp add: sort_values_desc_def)
  have sortedS: "sorted (map ?k ?S)" by (simp add: sort_values_desc_def)
  have setD: "set D \<subseteq> set df"
    using dds_subset[of "[]" reg ?S] setS by (simp add: D_def drop_duplicates_def)
  have distD: "distinct (map reg D)" by (simp add: D_def drop_duplicates_def dds_distinct)
  have regD: "reg ` set D = reg ` set df"
    using dds_regions[of reg "[]" ?S] setS by (simp add: D_def drop_duplicates_def)
  have sortedD: "sorted (map ?k D)"
    using dds_sorted[OF sortedS] by (simp add: D_def drop_duplicates_def)
  have firstD: "?k r \<le> ?k r'" if "r \<in> set D" "r' \<in> set df" "reg r' = reg r" for r r'
    using dds_first[OF sortedS, of r "[]" reg r'] that setS
    by (simp add: D_def drop_duplicates_def)
  have pk: "desc_key (peak col reg df (reg r)) = ?k r" if "r \<in> set D" for r
    using that setD firstD by (intro peak_of_first) auto
  have D: "D = take n D @ drop n D" by simp
  from sortedD have "sorted (map ?k (take n D) @ map ?k (drop n D))"
    by (simp flip: map_append)
  then have s1: "sorted (map ?k (take n D))"
    and s2: "\<forall>r \<in> set (take n D). \<forall>d \<in> set (drop n D). ?k r \<le> ?k d"
    by (auto simp: sorted_append)
  have inD: "set (take n D) \<subseteq> set D" by (rule set_take_subset)
  have a: "distinct (take n (map reg D))" using distD by (rule distinct_take)
  have b: "set (take n (map reg D)) \<subseteq> reg ` set df"
    using set_take_subset[of n "map reg D"] regD by auto
  have c: "sorted_wrt (\<lambda>g h. at_least (peak col reg df g) (peak col reg df h)) (take n (map reg D))"
  proof -
    have "sorted_wrt (\<lambda>r r'. ?k r \<le> ?k r') (take n D)" using s1 by (simp add: sorted_map)
    then have "sorted_wrt (\<lambda>r r'. at_least (peak col reg df (reg r)) (peak col reg df (reg r')))
        (take n D)"
      by (rule sorted_wrt_mono_rel[rotated]) (use inD pk in \<open>auto simp: at_least_def subset_iff\<close>)
    then show ?thesis by (simp add: take_map sorted_wrt_map)
  qed
  have d: "at_least (peak col reg df h) (peak col reg df g)"
    if g: "g \<in> reg ` set df - set (take n (map reg D))" and h: "h \<in> set (take n (map reg D))"
    for g h
  proof -
    from h obtain r where r: "r \<in> set (take n D)" "h = reg r" by (auto simp: take_map)
    from g regD obtain d where d: "d \<in> set D" "g = reg d" by auto
    with g have "d \<notin> set (take n D)" by (auto simp: take_map)
    with d(1) have "d \<in> set (drop n D)" using D by (metis Un_iff set_append)
    with s2 r have "?k r \<le> ?k d" by auto
    with pk r d inD show ?thesis by (auto simp: at_least_def)
  qed
  show "ranked_top (peak col reg df) (reg ` set df) (take n (map reg D))"
    unfolding ranked_top_def using a b c d by blast
  have "length D = card (reg ` set df)"
    using distinct_card[OF distD] regD by simp
  then show "length (take n (map reg D)) = min n (card (reg ` set df))" by simp
qed

lemma get_state_list_top:
  assumes "int_of_str (opt_states opts) = Some n" "0 < n"
  shows "get_state_list opts df column
       = take (nat n) (map (\<lambda>r. State (row r))
           (drop_duplicates (\<lambda>r. State (row r)) (sort_values_desc (\<lambda>r. get_col column (row r)) df)))"
  using assms by (simp add: get_state_list_def slice_to_def)

lemma get_county_list_top:
  assumes "int_of_str (opt_counties opts) = Some n" "0 < n"
  shows "get_county_list opts df column
       = take (nat n) (map (\<lambda>r. County (row r))
           (drop_duplicates (\<lambda>r. County (row r)) (sort_values_desc (\<lambda>r. get_col column (row r)) df)))"
  using assms by (simp add: get_county_list_def slice_to_def)

subsection \<open>Merging, normalising, filtering\<close>

lemma normalize_map: "normalize df = map normalize_row df"
  by (simp add: normalize_def normalize_col_def normalize_row_def comp_def)

lemma set_merge:
  "set (merge on df pops) = {\<lparr>row = r, population = p\<rparr> | r p. r \<in> set df \<and> (on r, p) \<in> set pops}"
  unfolding merge_def by (auto simp: image_iff)

lemma filter_key_distinct:
  "distinct (map fst pops) \<Longrightarrow>
   map (\<lambda>p. c) (filter (\<lambda>p. fst p = k) pops) = (if k \<in> fst ` set pops then [c] else [])"
  by (induction pops) (auto simp: image_iff)

lemma merge_unique:
  assumes "distinct (map fst pops)"
  shows "map row (merge on df pops) = filter (\<lambda>r. on r \<in> fst ` set pops) df"
proof (induction df)
  case Nil
  then show ?case by (simp add: merge_def)
next
  case (Cons r df)
  have "map row (merge on (r # df) pops)
      = map (\<lambda>p. r) (filter (\<lambda>p. fst p = on r) pops) @ map row (merge on df pops)"
    by (simp add: merge_def comp_def)
  then show ?case using Cons filter_key_distinct[OF assms, of r "on r"] by simp
qed

lemma cell_ge_iff: "cell_ge c k \<longleftrightarrow> \<not> cell_lt c k \<and> c \<noteq> NaN"
  by (cases c) auto

lemma noise_filter_no_nan: "r \<in> set (noise_filter normed df) \<Longrightarrow> daily_cases (row r) \<noteq> NaN"
  by (auto simp: noise_filter_def split: if_splits)

subsection \<open>The daily columns as the scripts compute them\<close>

text \<open>
  The scripts take the differences and the rolling mean over the whole sorted frame. What
  that gives inside one region: after the region's first row the differences are the
  region's own, and for the region that opens the frame the first row is 0 as well.
\<close>

lemma region_deltas_as_computed:
  "tl (state_series g csv (delta_cases_states csv))
     = tl (fillna 0 (diff (map s_cases (state_rows g csv)))) \<and>
   tl (state_series g csv (delta_deaths_states csv))
     = tl (fillna 0 (diff (map s_deaths (state_rows g csv)))) \<and>
   tl (county_series st cty ccsv (delta_cases_counties ccsv))
     = tl (fillna 0 (diff (map c_cases (county_rows st cty ccsv)))) \<and>
   tl (county_series st cty ccsv (delta_deaths_counties ccsv))
     = tl (fillna 0 (diff (map c_deaths (county_rows st cty ccsv)))) \<and>
   ((\<forall>r \<in> set csv. g \<le> s_state r) \<longrightarrow>
      state_series g csv (delta_cases_states csv)
        = fillna 0 (diff (map s_cases (state_rows g csv))) \<and>
      state_series g csv (delta_deaths_states csv)
        = fillna 0 (diff (map s_deaths (state_rows g csv)))) \<and>
   ((\<forall>r \<in> set ccsv. (st, cty) \<le> (c_state r, c_county r)) \<longrightarrow>
      county_series st cty ccsv (delta_cases_counties ccsv)
        = fillna 0 (diff (map c_cases (county_rows st cty ccsv))) \<and>
      county_series st cty ccsv (delta_deaths_counties ccsv)
        = fillna 0 (diff (map c_deaths (county_rows st cty ccsv)))) \<and>
   map s_cases (state_rows ''A'' five_days) = [0, 0, 3, 3, 7] \<and>
   state_series ''A'' five_days (delta_cases_states five_days) = [0, 0, 3, 0, 4]"
proof -
  note s = sorted_states_by_state[of csv]
  note c = sorted_counties_by_county[of ccsv]
  have t1: "tl (state_series g csv (delta_cases_states csv))
     = tl (fillna 0 (diff (map s_cases (state_rows g csv))))"
    unfolding state_series_def state_rows_def delta_cases_states_def
    by (rule region_delta_tail[OF s])
  have t2: "tl (state_series g csv (delta_deaths_states csv))
     = tl (fillna 0 (diff (map s_deaths (state_rows g csv))))"
    unfolding state_series_def state_rows_def delta_deaths_states_def
    by (rule region_delta_tail[OF s])
  have t3: "tl (county_series st cty ccsv (delta_cases_counties ccsv))
     = tl (fillna 0 (diff (map c_cases (county_rows st cty ccsv))))"
    unfolding county_series_def county_rows_def delta_cases_counties_def
    by (rule region_delta_tail[OF c])
  have t4: "tl (county_series st cty ccsv (delta_deaths_counties ccsv))
     = tl (fillna 0 (diff (map c_deaths (county_rows st cty ccsv))))"
    unfolding county_series_def county_rows_def delta_deaths_counties_def
    by (rule region_delta_tail[OF c])
  have h1: "state_series g csv (delta_cases_states csv)
        = fillna 0 (diff (map s_cases (state_rows g csv))) \<and>
      state_series g csv (delta_deaths_states csv)
        = fillna 0 (diff (map s_deaths (state_rows g csv)))"
    if "\<forall>r \<in> set csv. g \<le> s_state r"
  proof -
    from that have "\<forall>r \<in> set (sorted_states csv). g \<le> s_state r"
      by (simp add: set_sorted_states)
    then show ?thesis
      unfolding state_series_def state_rows_def delta_cases_states_def delta_deaths_states_def
      using region_delta_head[OF s] by blast
  qed
  have h2: "county_series st cty ccsv (delta_cases_counties ccsv)
        = fillna 0 (diff (map c_cases (county_rows st cty ccsv))) \<and>
      county_series st cty ccsv (delta_deaths_counties ccsv)
        = fillna 0 (diff (map c_deaths (county_rows st cty ccsv)))"
    if "\<forall>r \<in> set ccsv. (st, cty) \<le> (c_state r, c_county r)"
  proof -
    from that have "\<forall>r \<in> set (sorted_counties ccsv). (st, cty) \<le> (c_state r, c_county r)"
      by (simp only: set_sorted_counties)
    then show ?thesis
      unfolding county_series_def county_rows_def delta_cases_counties_def delta_deaths_counties_def
      using region_delta_head[OF c] by blast
  qed
  have e1: "map s_cases (state_rows ''A'' five_days) = [0, 0, 3, 3, 7]" by code_simp
  have e2: "state_series ''A'' five_days (delta_cases_states five_days) = [0, 0, 3, 0, 4]"
    by code_simp
  show ?thesis using t1 t2 t3 t4 h1 h2 e1 e2 by blast
qed

text \<open>
  From the seventh row of a region on, the smoothed column is the mean of the last seven
  entries of the difference column on the rows of that region; the first six rows of the
  frame are undefined.
\<close>

lemma region_means_as_computed:
  "(6 \<le> k \<and> k < length (state_rows g csv) \<longrightarrow>
      state_series g csv (map daily_cases (derive_states csv)) ! k
        = Num (of_int (sum_list (take 7 (drop (k - 6)
            (state_series g csv (delta_cases_states csv))))) / 7) \<and>
      state_series g csv (map daily_deaths (derive_states csv)) ! k
        = Num (of_int (sum_list (take 7 (drop (k - 6)
            (state_series g csv (delta_deaths_states csv))))) / 7)) \<and>
   (6 \<le> k \<and> k < length (county_rows st cty ccsv) \<longrightarrow>
      county_series st cty ccsv (map daily_cases (derive_counties ccsv)) ! k
        = Num (of_int (sum_list (take 7 (drop (k - 6)
            (county_series st cty ccsv (delta_cases_counties ccsv))))) / 7) \<and>
      county_series st cty ccsv (map daily_deaths (derive_counties ccsv)) ! k
        = Num (of_int (sum_list (take 7 (drop (k - 6)
            (county_series st cty ccsv (delta_deaths_counties ccsv))))) / 7)) \<and>
   (i < 6 \<and> i < length csv \<longrightarrow>
      daily_cases (derive_states csv ! i) = NaN \<and> daily_deaths (derive_states csv ! i) = NaN) \<and>
   (i < 6 \<and> i < length ccsv \<longrightarrow>
      daily_cases (derive_counties ccsv ! i) = NaN \<and>
      daily_deaths (derive_counties ccsv ! i) = NaN)"
proof -
  note s = sorted_states_by_state[of csv]
  note c = sorted_counties_by_county[of ccsv]
  have r1: "state_series g csv (map daily_cases (derive_states csv)) ! k
        = Num (of_int (sum_list (take 7 (drop (k - 6)
            (state_series g csv (delta_cases_states csv))))) / 7)"
    if "6 \<le> k" "k < length (state_rows g csv)"
    using that unfolding state_series_def state_rows_def derive_states_daily
    by (intro region_smoothed[OF s length_delta_states(1)])
  have r2: "state_series g csv (map daily_deaths (derive_states csv)) ! k
        = Num (of_int (sum_list (take 7 (drop (k - 6)
            (state_series g csv (delta_deaths_states csv))))) / 7)"
    if "6 \<le> k" "k < length (state_rows g csv)"
    using that unfolding state_series_def state_rows_def derive_states_daily
    by (intro region_smoothed[OF s length_delta_states(2)])
  have r3: "county_series st cty ccsv (map daily_cases (derive_counties ccsv)) ! k
        = Num (of_int (sum_list (take 7 (drop (k - 6)
            (county_series st cty ccsv (delta_cases_counties ccsv))))) / 7)"
    if "6 \<le> k" "k < length (county_rows st cty ccsv)"
    using that unfolding county_series_def county_rows_def derive_counties_daily
    by (intro region_smoothed[OF c length_delta_counties(1)])
  have r4: "county_series st cty ccsv (map daily_deaths (derive_counties ccsv)) ! k
        = Num (of_int (sum_list (take 7 (drop (k - 6)
            (county_series st cty ccsv (delta_deaths_counties ccsv))))) / 7)"
    if "6 \<le> k" "k < length (county_rows st cty ccsv)"
    using that unfolding county_series_def county_rows_def derive_counties_daily
    by (intro region_smoothed[OF c length_delta_counties(2)])
  have t1: "daily_cases (derive_states csv ! i) = NaN \<and> daily_deaths (derive_states csv ! i) = NaN"
    if "i < 6" "i < length csv"
    using that derive_states_row[of i csv] by simp
  have t2: "daily_cases (derive_counties ccsv ! i) = NaN \<and>
      daily_deaths (derive_counties ccsv ! i) = NaN"
    if "i < 6" "i < length ccsv"
    using that derive_counties_row[of i ccsv] by simp
  show ?thesis using r1 r2 r3 r4 t1 t2 by blast
qed

section \<open>The daily differences (claim C1)\<close>

text \<open>
  C1: in the frame sorted by (parent region,) region and date, the daily-delta columns
  are, within each region, the first difference of that region's cumulative counts, the
  first row of each region being 0. The scripts sort by region and date and then take the
  difference over the whole frame, with no grouping by region, so the claim holds for the
  region that opens the frame (the counts 0, 0, 3, 3, 7 give 0, 0, 3, 0, 4) and fails at
  the first row of every later region, which gets its count minus the last count of the
  region before it: state \<open>B\<close>, at 7000 cases on each of its seven days, has the daily
  deltas 7000, 0, 0, 0, 0, 0, 0 instead of seven zeros; with \<open>A\<close> at 100 and \<open>B\<close> at 150
  cases on one day, the one row of \<open>B\<close> gets 50 instead of 0, in both scripts.
\<close>

theorem daily_delta_at_region_boundary:
  "map s_cases (state_rows ''B'' quiet_then_flat)
     = [7000, 7000, 7000, 7000, 7000, 7000, 7000] \<and>
   fillna 0 (diff (map s_cases (state_rows ''B'' quiet_then_flat))) = [0, 0, 0, 0, 0, 0, 0] \<and>
   state_series ''B'' quiet_then_flat (delta_cases_states quiet_then_flat)
     = [7000, 0, 0, 0, 0, 0, 0] \<and>
   county_series ''S'' ''B'' quiet_then_flat_counties
       (delta_cases_counties quiet_then_flat_counties)
     = [7000, 0, 0, 0, 0, 0, 0] \<and>
   fillna 0 (diff (map s_cases (state_rows ''B'' two_regions))) = [0] \<and>
   state_series ''B'' two_regions (delta_cases_states two_regions) = [50] \<and>
   county_series ''S'' ''B'' two_counties (delta_cases_counties two_counties) = [50] \<and>
   map s_cases (state_rows ''A'' five_days) = [0, 0, 3, 3, 7] \<and>
   state_series ''A'' five_days (delta_cases_states five_days) = [0, 0, 3, 0, 4]"
  by code_simp

section \<open>The seven-day mean (claim C2)\<close>

text \<open>
  C2: for every region's series of daily deltas, the smoothed daily columns are the
  trailing mean of the last 7 daily deltas wherever 7 values of the region's series are
  there, and undefined (NaN) at the first 6 points of each region's series. The rolling
  window runs over the whole sorted frame, with no grouping by region, so the windows of
  the first rows of a later region reach back into the region before it: in the
  two-state sample the first and the sixth point of \<open>B\<close> are the numbers 0 and 5, not
  NaN; and state \<open>B\<close>, at 7000 cases on each of its seven days, has no new case on any day
  and yet a smoothed \<open>daily cases\<close> of 1000 on all seven, the seventh included, where the
  mean of its own seven daily deltas is 0. That value is what the frame handed to the
  selection and the presentation holds for \<open>B\<close>.
\<close>

theorem rolling_mean_across_regions:
  "state_series ''B'' two_waves (map daily_cases (derive_states two_waves)) ! 0 = Num 0 \<and>
   state_series ''B'' two_waves (map daily_cases (derive_states two_waves)) ! 5 = Num 5 \<and>
   fillna 0 (diff (map s_cases (state_rows ''B'' quiet_then_flat))) = [0, 0, 0, 0, 0, 0, 0] \<and>
   state_series ''B'' quiet_then_flat (map daily_cases (derive_states quiet_then_flat))
     = [Num 1000, Num 1000, Num 1000, Num 1000, Num 1000, Num 1000, Num 1000] \<and>
   county_series ''S'' ''B'' quiet_then_flat_counties
       (map daily_cases (derive_counties quiet_then_flat_counties))
     = [Num 1000, Num 1000, Num 1000, Num 1000, Num 1000, Num 1000, Num 1000] \<and>
   state_latest Daily_cases
     (frame_states (states_opts (Some ''c'') False ''B'') quiet_then_flat two_waves_pops) ''B''
     = Num 1000 \<and>
   length (snd (test_states (states_opts (Some ''c'') False ''B'') quiet_then_flat
     two_waves_pops)) = 7"
  by code_simp

section \<open>The top-N selection (claim C3)\<close>

text \<open>
  C3, as the specification words it: for a positive integer \<open>N\<close> the selector returns
  the \<open>N\<close> regions whose latest value of the metric is highest, in descending order of
  that latest value. The scripts sort all rows by the metric and keep the first row of each
  region, which is the row of the region's highest value, not of its latest date. In the
  two-state sample with the metric \<open>daily cases\<close>, state \<open>A\<close> peaks at 10 and ends at 0,
  state \<open>B\<close> ends at its peak 7: the top 1 is \<open>A\<close>, whose latest value is below that of \<open>B\<close>.
\<close>

theorem top_n_counterexample:
  "fst (test_states (states_opts (Some ''c'') False ''1'') two_waves two_waves_pops) = [''A''] \<and>
   state_latest Daily_cases
     (frame_states (states_opts (Some ''c'') False ''1'') two_waves two_waves_pops) ''A'' = Num 0 \<and>
   state_latest Daily_cases
     (frame_states (states_opts (Some ''c'') False ''1'') two_waves two_waves_pops) ''B'' = Num 7 \<and>
   \<not> ranked_top
       (state_latest Daily_cases
          (frame_states (states_opts (Some ''c'') False ''1'') two_waves two_waves_pops))
       (state_names (frame_states (states_opts (Some ''c'') False ''1'') two_waves two_waves_pops))
       (fst (test_states (states_opts (Some ''c'') False ''1'') two_waves two_waves_pops))"
  by code_simp

text \<open>
  C3, amended: for an input that \<open>int\<close> reads as a positive integer \<open>N\<close>, the selector
  returns region identifiers, each at most once, in descending order of the highest value
  the chosen metric takes on any row of the region (NaN ranking last), no region left out
  having a higher such value than a region returned; it returns \<open>N\<close> of them, or all the
  regions of the frame when there are fewer than \<open>N\<close>.
\<close>

theorem top_n_by_peak:
  "(int_of_str (opt_states so) = Some n \<and> 0 < n \<longrightarrow>
      ranked_top (state_peak column sdf) (state_names sdf) (get_state_list so sdf column) \<and>
      length (get_state_list so sdf column) = min (nat n) (card (state_names sdf))) \<and>
   (int_of_str (opt_counties co) = Some m \<and> 0 < m \<longrightarrow>
      ranked_top (county_peak column' cdf) (county_names cdf) (get_county_list co cdf column') \<and>
      length (get_county_list co cdf column') = min (nat m) (card (county_names cdf)))"
  unfolding state_peak_def state_names_def county_peak_def county_names_def
  by (auto simp only: get_state_list_top get_county_list_top top_ranked)

text \<open>
  The amended C3 at the two-state sample with input \<open>1\<close> and at the two-county sample
  with input \<open>2\<close>.
\<close>

theorem top_n_by_peak_witness:
  "int_of_str ''1'' = Some 1 \<and> int_of_str ''2'' = Some 2 \<and>
   get_state_list (states_opts (Some ''c'') False ''1'')
     (frame_states (states_opts (Some ''c'') False ''1'') two_waves two_waves_pops) Daily_cases
     = [''A''] \<and>
   state_peak Daily_cases
     (frame_states (states_opts (Some ''c'') False ''1'') two_waves two_waves_pops) ''A'' = Num 10 \<and>
   ranked_top
     (state_peak Daily_cases
        (frame_states (states_opts (Some ''c'') False ''1'') two_waves two_waves_pops))
     (state_names (frame_states (states_opts (Some ''c'') False ''1'') two_waves two_waves_pops))
     (get_state_list (states_opts (Some ''c'') False ''1'')
        (frame_states (states_opts (Some ''c'') False ''1'') two_waves two_waves_pops) Daily_cases) \<and>
   ranked_top
     (county_peak Total_cases
        (frame_counties (counties_opts None False ''2'') two_counties two_counties_pops))
     (county_names (frame_counties (counties_opts None False ''2'') two_counties two_counties_pops))
     (get_county_list (counties_opts None False ''2'')
        (frame_counties (counties_opts None False ''2'') two_counties two_counties_pops) Total_cases)"
proof -
  have a: "int_of_str (opt_states (states_opts (Some ''c'') False ''1'')) = Some 1 \<and> (0::int) < 1"
    by code_simp
  have b: "int_of_str (opt_counties (counties_opts None False ''2'')) = Some 2 \<and> (0::int) < 2"
    by code_simp
  have c: "int_of_str ''1'' = Some 1 \<and> int_of_str ''2'' = Some 2" by code_simp
  have d: "get_state_list (states_opts (Some ''c'') False ''1'')
     (frame_states (states_opts (Some ''c'') False ''1'') two_waves two_waves_pops) Daily_cases
     = [''A'']" by code_simp
  have e: "state_peak Daily_cases
     (frame_states (states_opts (Some ''c'') False ''1'') two_waves two_waves_pops) ''A'' = Num 10"
    by code_simp
  show ?thesis
    using top_n_by_peak[of "states_opts (Some ''c'') False ''1''" 1 Daily_cases
        "frame_states (states_opts (Some ''c'') False ''1'') two_waves two_waves_pops"
        "counties_opts None False ''2''" 2 Total_cases
        "frame_counties (counties_opts None False ''2'') two_counties two_counties_pops"]
      a b c d e by blast
qed

section \<open>The explicit list (claim C4)\<close>

text \<open>
  C4: for an input that \<open>int\<close> rejects, the selector returns the tokens between the
  commas of the input, each stripped of surrounding white space, in the order of the
  input, whatever the frame and the metric; \<open>Texas, California\<close> gives
  \<open>Texas\<close>, \<open>California\<close>.
\<close>

theorem explicit_region_list:
  "(int_of_str (opt_states so) = None \<longrightarrow>
      get_state_list so sdf column = map strip (split CHR '','' (opt_states so))) \<and>
   (int_of_str (opt_counties co) = None \<longrightarrow>
      get_county_list co cdf column' = map strip (split CHR '','' (opt_counties co))) \<and>
   get_state_list (so\<lparr>opt_states := ''Texas, California''\<rparr>) sdf column
     = [''Texas'', ''California''] \<and>
   get_county_list (co\<lparr>opt_counties := ''Texas, California''\<rparr>) cdf column'
     = [''Texas'', ''California'']"
proof -
  have n: "int_of_str ''Texas, California'' = None"
    by (simp add: int_of_str_def int_space_def is_digit_def)
  have t: "map strip (split CHR '','' ''Texas, California'') = [''Texas'', ''California'']"
    by (simp add: strip_def is_space_def)
  show ?thesis using n t by (simp add: get_state_list_def get_county_list_def)
qed

text \<open>
  C4 at the input \<open>Texas, California\<close>, on frames that hold neither name.
\<close>

theorem explicit_region_list_witness:
  "int_of_str ''Texas, California'' = None \<and>
   get_state_list (states_opts None False ''Texas, California'')
     (frame_states (states_opts None False ''Texas, California'') two_regions two_regions_pops)
     Total_cases = [''Texas'', ''California''] \<and>
   get_county_list (counties_opts None False ''Texas, California'')
     (frame_counties (counties_opts None False ''Texas, California'') two_counties
        two_counties_pops)
     Total_cases = [''Texas'', ''California'']"
proof -
  have n: "int_of_str ''Texas, California'' = None" by code_simp
  have o: "opt_states (states_opts None False ''Texas, California'') = ''Texas, California''"
    "opt_counties (counties_opts None False ''Texas, California'') = ''Texas, California''"
    by (simp_all add: states_opts_def counties_opts_def)
  have t: "map strip (split CHR '','' ''Texas, California'') = [''Texas'', ''California'']"
    by code_simp
  show ?thesis
    using explicit_region_list[of "states_opts None False ''Texas, California''"
        "frame_states (states_opts None False ''Texas, California'') two_regions two_regions_pops"
        Total_cases "counties_opts None False ''Texas, California''"
        "frame_counties (counties_opts None False ''Texas, California'') two_counties two_counties_pops"
        Total_cases] n
    unfolding o t by blast
qed

section \<open>The normalisation (claim C5)\<close>

text \<open>
  C5: the normalisation replaces each of the four metric columns of every row by
  (value / population of the row) * 100 and leaves the other columns alone; the frame
  normalised on request is the merged frame of the smoothed raw counts with that
  rescaling applied, so the smoothing has seen the raw counts.
\<close>

theorem normalization_after_smoothing:
  "normalize df = map normalize_row df \<and>
   total_cases (row (normalize_row r))
     = cell_mul (cell_div (total_cases (row r)) (population r)) 100 \<and>
   total_deaths (row (normalize_row r))
     = cell_mul (cell_div (total_deaths (row r)) (population r)) 100 \<and>
   daily_cases (row (normalize_row r))
     = cell_mul (cell_div (daily_cases (row r)) (population r)) 100 \<and>
   daily_deaths (row (normalize_row r))
     = cell_mul (cell_div (daily_deaths (row r)) (population r)) 100 \<and>
   Date (row (normalize_row r)) = Date (row r) \<and>
   fips (row (normalize_row r)) = fips (row r) \<and>
   metrics.more (row (normalize_row r)) = metrics.more (row r) \<and>
   population (normalize_row r) = population r \<and>
   cell_mul (cell_div (Num v) p) 100
     = (if p \<noteq> 0 then Num (v / of_int p * 100)
        else if 0 < v then PosInf else if v < 0 then NegInf else NaN) \<and>
   frame_states (so\<lparr>opt_norm := True\<rparr>) csv spops
     = map normalize_row (merge State (derive_states csv) (get_populations_states spops)) \<and>
   frame_counties (co\<lparr>opt_norm := True\<rparr>) ccsv cpops
     = map normalize_row
         (merge fips (filter (\<lambda>r. state r = opt_state co) (derive_counties ccsv))
            (get_populations_counties cpops))"
  by (simp add: normalize_map frame_states_def frame_counties_def) (simp add: normalize_row_def)

section \<open>The population join (claim C6)\<close>

text \<open>
  C6: the merge is an inner join on the region identifier: its rows are exactly the rows
  of the derived frame paired with the population of a matching row of the reference
  table, so a row with a match is kept with its population and a row without one is
  dropped; with one reference row per identifier, the derived rows that have a match come
  out once each, in their order.
\<close>

theorem population_inner_join:
  "set (merge on df pops)
     = {\<lparr>row = r, population = p\<rparr> | r p. r \<in> set df \<and> (on r, p) \<in> set pops} \<and>
   (distinct (map fst pops) \<longrightarrow>
      map row (merge on df pops) = filter (\<lambda>r. on r \<in> fst ` set pops) df) \<and>
   frame_states (so\<lparr>opt_norm := False\<rparr>) csv spops
     = merge State (derive_states csv) (get_populations_states spops) \<and>
   frame_counties (co\<lparr>opt_norm := False\<rparr>) ccsv cpops
     = merge fips (filter (\<lambda>r. state r = opt_state co) (derive_counties ccsv))
         (get_populations_counties cpops)"
  using set_merge[of on df pops] merge_unique[of pops on df]
  by (simp add: frame_states_def frame_counties_def)

text \<open>
  C6 at the two-region sample with a reference table that knows \<open>A\<close> only.
\<close>

theorem population_inner_join_witness:
  "distinct (map fst [(''A'', 1000::int)]) \<and>
   map State (derive_states two_regions) = [''A'', ''B''] \<and>
   map State (map row (merge State (derive_states two_regions) [(''A'', 1000)])) = [''A'']"
proof -
  have a: "distinct (map fst [(''A'', 1000::int)])" by simp
  have b: "map State (derive_states two_regions) = [''A'', ''B'']" by code_simp
  have c: "map State (filter (\<lambda>r. State r \<in> fst ` set [(''A'', 1000::int)])
      (derive_states two_regions)) = [''A'']" by code_simp
  from population_inner_join[of State "derive_states two_regions" "[(''A'', 1000)]"] a
  have "map row (merge State (derive_states two_regions) [(''A'', 1000)])
      = filter (\<lambda>r. State r \<in> fst ` set [(''A'', 1000::int)]) (derive_states two_regions)"
    by blast
  then show ?thesis using a b c by simp
qed

section \<open>The noise filter (claim C7)\<close>

text \<open>
  C7, as the specification words it: the rows whose \<open>daily cases\<close> is below the
  threshold are dropped and all other rows are kept. The scripts keep the rows with
  \<open>daily cases >= threshold\<close>, which is false on NaN: in the two-region sample every row
  has an undefined \<open>daily cases\<close>, none is below 2, and none is kept.
\<close>

theorem noise_filter_nan_counterexample:
  "frame_states (states_opts None False ''2'') two_regions two_regions_pops \<noteq> [] \<and>
   drop_below 2 (frame_states (states_opts None False ''2'') two_regions two_regions_pops)
     = frame_states (states_opts None False ''2'') two_regions two_regions_pops \<and>
   snd (test_states (states_opts None False ''2'') two_regions two_regions_pops) = []"
  by code_simp

text \<open>
  C7, amended: before the presentation, every row whose \<open>daily cases\<close> is below 2 or
  undefined (NaN) is dropped when normalisation is off, every row whose \<open>daily cases\<close> is
  below 0 or undefined when it is on; all other rows are kept unchanged, in their order.
\<close>

theorem noise_filter_keeps:
  "noise_filter normed df
     = filter (\<lambda>r. \<not> cell_lt (daily_cases (row r)) (if normed then 0 else 2) \<and>
                    daily_cases (row r) \<noteq> NaN) df \<and>
   snd (test_states so csv spops) = noise_filter (opt_norm so) (frame_states so csv spops) \<and>
   snd (test_counties co ccsv cpops)
     = noise_filter (opt_norm co) (frame_counties co ccsv cpops)"
  by (simp add: noise_filter_def cell_ge_iff test_states_def test_counties_def Let_def)

section \<open>Normalisation and ranking (claim C8)\<close>

text \<open>
  C8: with region \<open>A\<close> at 100 cases among 1000 people and region \<open>B\<close> at 150 cases among
  10000, the top 2 by \<open>total cases\<close> is \<open>B\<close>, \<open>A\<close> on the raw counts (150 above 100) and
  \<open>A\<close>, \<open>B\<close> after the normalisation (10 percent above 1.5 percent), in both scripts.
\<close>

theorem normalization_changes_ranking:
  "fst (test_states (states_opts None False ''2'') two_regions two_regions_pops) = [''B'', ''A''] \<and>
   fst (test_states (states_opts None True ''2'') two_regions two_regions_pops) = [''A'', ''B''] \<and>
   state_latest Total_cases
     (frame_states (states_opts None False ''2'') two_regions two_regions_pops) ''A'' = Num 100 \<and>
   state_latest Total_cases
     (frame_states (states_opts None False ''2'') two_regions two_regions_pops) ''B'' = Num 150 \<and>
   state_latest Total_cases
     (frame_states (states_opts None True ''2'') two_regions two_regions_pops) ''A'' = Num 10 \<and>
   state_latest Total_cases
     (frame_states (states_opts None True ''2'') two_regions two_regions_pops) ''B'' = Num (3 / 2) \<and>
   fst (test_counties (counties_opts None False ''2'') two_counties two_counties_pops)
     = [''B'', ''A''] \<and>
   fst (test_counties (counties_opts None True ''2'') two_counties two_counties_pops)
     = [''A'', ''B'']"
  by code_simp

section \<open>The input 0 (claim C9)\<close>

text \<open>
  C9: the input \<open>0\<close> is read as the integer 0, which the test \<open>if top_number\<close> takes as
  false; the selector then falls through to the explicit list and returns the one-element
  list that holds the string \<open>0\<close>, whatever the frame and the metric.
\<close>

theorem zero_is_a_region_name:
  "int_of_str ''0'' = Some 0 \<and>
   get_state_list (so\<lparr>opt_states := ''0''\<rparr>) sdf column = [''0''] \<and>
   get_county_list (co\<lparr>opt_counties := ''0''\<rparr>) cdf column' = [''0'']"
  by (simp add: get_state_list_def get_county_list_def int_of_str_def int_space_def
      is_digit_def digit_value_def strip_def is_space_def)

section \<open>No undefined value is presented (claim C10)\<close>

text \<open>
  C10: after the noise filter no row has an undefined (NaN) \<open>daily cases\<close>, whether
  normalisation is on or off, in the filter itself and in the frame each script presents.
\<close>

theorem no_nan_after_noise_filter:
  "(\<forall>r \<in> set (noise_filter normed df). daily_cases (row r) \<noteq> NaN) \<and>
   (\<forall>r \<in> set (snd (test_states so csv spops)). daily_cases (row r) \<noteq> NaN) \<and>
   (\<forall>r \<in> set (snd (test_counties co ccsv cpops)). daily_cases (row r) \<noteq> NaN)"
  by (auto simp: test_states_def test_counties_def Let_def dest: noise_filter_no_nan)

text \<open>
  C10 at the last row that survives the filter, in the two-state sample without
  normalisation and in the one-county sample with it.
\<close>

theorem no_nan_after_noise_filter_witness:
  "length (noise_filter False
     (frame_states (states_opts None False ''2'') two_waves two_waves_pops)) = 9 \<and>
   daily_cases (row (last (noise_filter False
     (frame_states (states_opts None False ''2'') two_waves two_waves_pops)))) \<noteq> NaN \<and>
   length (snd (test_states (states_opts None False ''2'') two_waves two_waves_pops)) = 9 \<and>
   daily_cases (row (last (snd (test_states (states_opts None False ''2'') two_waves
     two_waves_pops)))) \<noteq> NaN \<and>
   length (snd (test_counties (counties_opts None True ''1'') one_county two_counties_pops)) = 2 \<and>
   daily_cases (row (last (snd (test_counties (counties_opts None True ''1'') one_county
     two_counties_pops)))) \<noteq> NaN"
proof -
  have a: "length (snd (test_states (states_opts None False ''2'') two_waves two_waves_pops)) = 9"
    by code_simp
  have b: "length (snd (test_counties (counties_opts None True ''1'') one_county
      two_counties_pops)) = 2"
    by code_simp
  have c: "length (noise_filter False
     (frame_states (states_opts None False ''2'') two_waves two_waves_pops)) = 9"
    by code_simp
  from a have a': "last (snd (test_states (states_opts None False ''2'') two_waves two_waves_pops))
      \<in> set (snd (test_states (states_opts None False ''2'') two_waves two_waves_pops))"
    by (intro last_in_set) auto
  from b have b': "last (snd (test_counties (counties_opts None True ''1'') one_county
      two_counties_pops))
      \<in> set (snd (test_counties (counties_opts None True ''1'') one_county two_counties_pops))"
    by (intro last_in_set) auto
  from c have c': "last (noise_filter False
     (frame_states (states_opts None False ''2'') two_waves two_waves_pops))
      \<in> set (noise_filter False
     (frame_states (states_opts None False ''2'') two_waves two_waves_pops))"
    by (intro last_in_set) auto
  show ?thesis
    using no_nan_after_noise_filter[of False
        "frame_states (states_opts None False ''2'') two_waves two_waves_pops"
        "states_opts None False ''2''" two_waves
        two_waves_pops "counties_opts None True ''1''" one_county two_counties_pops]
      a b c a' b' c'
    by blast
qed

end
